theory Spec2Isabelle
  imports Complex_Main "HOL-Library.Word"
begin

unbundle bit_operations_syntax

section \<open>Embedding of \<^verbatim>\<open>scripts/generate_stock_luts.py\<close>\<close>

text \<open>
  Conventions of the embedding.
  \<^item> A Python \<^verbatim>\<open>float\<close> is a \<^typ>\<open>real\<close>: arithmetic is exact, so rounding, the silent
    overflow of \<^verbatim>\<open>+\<close>, \<^verbatim>\<open>-\<close>, \<^verbatim>\<open>*\<close> and \<^verbatim>\<open>/\<close> to infinity, and NaN are outside this model.
    The one float operation that raises on overflow, the power, does so in the model
    too. A decimal literal such as \<^verbatim>\<open>0.04045\<close> is the rational it denotes.
  \<^item> A Python \<^verbatim>\<open>int\<close> is an \<^typ>\<open>int\<close>; \<^verbatim>\<open>//\<close> and \<^verbatim>\<open>%\<close> round towards minus infinity,
    as \<open>div\<close> and \<open>mod\<close> do, and raise on a zero divisor.
  \<^item> A byte of a \<^verbatim>\<open>bytes\<close> or \<^verbatim>\<open>bytearray\<close> object is an \<^typ>\<open>8 word\<close>.
  \<^item> Every exception the interpreter can raise inside the modelled functions is a value
    of type \<open>error\<close>; a function that can raise returns \<open>error + 'a\<close>, with \<open>Inl\<close> for the
    exception. Memory exhaustion and operating-system errors of the final file write are
    not modelled.
\<close>

datatype error =
  ValueError | ZeroDivisionError | OverflowError | StructError | IndexError | ComplexResult

type_synonym 'a result = "error + 'a"

type_synonym Rgb = "real \<times> real \<times> real"

type_synonym byte = "8 word"

text \<open>Sequencing of computations that may raise: the first exception wins.\<close>

definition bind_result :: "'a result \<Rightarrow> ('a \<Rightarrow> 'b result) \<Rightarrow> 'b result" where
  "bind_result m f = (case m of Inl e \<Rightarrow> Inl e | Inr v \<Rightarrow> f v)"

subsection \<open>Float primitives\<close>

text \<open>The largest finite float, \<^verbatim>\<open>sys.float_info.max\<close>.\<close>

definition float_max :: real where
  "float_max = (2 ^ 53 - 1) * 2 ^ 971"

text \<open>
  \<^verbatim>\<open>pow(x, y)\<close> and \<^verbatim>\<open>x ** y\<close> on floats: a zero base with a negative exponent raises
  \<^verbatim>\<open>ZeroDivisionError\<close>, \<^verbatim>\<open>0.0 ** 0.0\<close> is \<^verbatim>\<open>1.0\<close>, a result beyond the largest float
  raises \<^verbatim>\<open>OverflowError\<close> (a result too small for a float is no error), and a negative
  base with a non-integral exponent leaves the floats (the interpreter produces a complex
  number), which is recorded as \<open>ComplexResult\<close>. Without rounding, the overflow is
  placed where the exact result exceeds \<open>float_max\<close>; the hardware rounds a result less
  than half a unit in the last place above \<open>float_max\<close> down to it.
\<close>

definition py_pow :: "real \<Rightarrow> real \<Rightarrow> real result" where
  "py_pow x y =
     (if x = 0 then
        (if y < 0 then Inl ZeroDivisionError else if y = 0 then Inr 1 else Inr 0)
      else if 0 < x then
        (if float_max < x powr y then Inl OverflowError else Inr (x powr y))
      else if y = of_int \<lfloor>y\<rfloor> then
        (if float_max < \<bar>x powi \<lfloor>y\<rfloor>\<bar> then Inl OverflowError else Inr (x powi \<lfloor>y\<rfloor>))
      else Inl ComplexResult)"

text \<open>\<^verbatim>\<open>a / b\<close> on floats raises on a zero divisor.\<close>

definition float_div :: "real \<Rightarrow> real \<Rightarrow> real result" where
  "float_div a b = (if b = 0 then Inl ZeroDivisionError else Inr (a / b))"

text \<open>\<^verbatim>\<open>round(x)\<close> with one argument: to the nearest integer, ties to the even one.\<close>

definition py_round :: "real \<Rightarrow> int" where
  "py_round x =
     (let f = \<lfloor>x\<rfloor>; d = x - of_int f
      in if d < 1 / 2 then f else if 1 / 2 < d then f + 1
         else if even f then f else f + 1)"

subsection \<open>ColorSpace\<close>

text \<open>\<^verbatim>\<open>clamp(value, low=0.0, high=1.0)\<close>; the defaults are written out at each call.\<close>

definition clamp :: "real \<Rightarrow> real \<Rightarrow> real \<Rightarrow> real" where
  "clamp v low high = max low (min high v)"

definition srgb_to_linear :: "real \<Rightarrow> real result" where
  "srgb_to_linear channel =
     (let c = clamp channel 0 1
      in if c \<le> 0.04045 then Inr (c / 12.92)
         else py_pow ((c + 0.055) / 1.055) 2.4)"

definition linear_to_srgb :: "real \<Rightarrow> real result" where
  "linear_to_srgb channel =
     (let c = clamp channel 0 1
      in if c \<le> 0.0031308 then Inr (c * 12.92)
         else bind_result (py_pow c (1.0 / 2.4)) (\<lambda>p. Inr (1.055 * p - 0.055)))"

fun rgb_to_luma :: "Rgb \<Rightarrow> real" where
  "rgb_to_luma (r, g, b) = r * 0.2126 + g * 0.7152 + b * 0.0722"

subsection \<open>GradingEngine\<close>

text \<open>The keyword arguments of \<^verbatim>\<open>grade_color\<close>, and their defaults.\<close>

record grade_params =
  saturation :: real
  contrast :: real
  gamma :: real
  lift :: real
  gain :: real
  warmth :: real
  cool :: real
  shadow_teal :: real

definition default_params :: grade_params where
  "default_params =
     \<lparr>saturation = 1.0, contrast = 1.0, gamma = 1.0, lift = 0.0, gain = 1.0,
      warmth = 0.0, cool = 0.0, shadow_teal = 0.0\<rparr>"

text \<open>Decoding the three channels of a triple, left to right.\<close>

definition decode_rgb :: "Rgb \<Rightarrow> Rgb result" where
  "decode_rgb rgb =
     (case rgb of (r, g, b) \<Rightarrow>
        bind_result (srgb_to_linear r) (\<lambda>lr.
        bind_result (srgb_to_linear g) (\<lambda>lg.
        bind_result (srgb_to_linear b) (\<lambda>lb. Inr (lr, lg, lb)))))"

text \<open>The returned tuple \<^verbatim>\<open>(clamp(linear_to_srgb(clamp(lr))), ...)\<close>.\<close>

definition encode_rgb :: "Rgb \<Rightarrow> Rgb result" where
  "encode_rgb lin =
     (case lin of (lr, lg, lb) \<Rightarrow>
        bind_result (linear_to_srgb (clamp lr 0 1)) (\<lambda>r.
        bind_result (linear_to_srgb (clamp lg 0 1)) (\<lambda>g.
        bind_result (linear_to_srgb (clamp lb 0 1)) (\<lambda>b.
          Inr (clamp r 0 1, clamp g 0 1, clamp b 0 1)))))"

definition grade_color :: "Rgb \<Rightarrow> grade_params \<Rightarrow> Rgb result" where
  "grade_color rgb p =
     bind_result (decode_rgb rgb) (\<lambda>(lr, lg, lb).
       let lum = rgb_to_luma (lr, lg, lb);
           lr = lr * (1.0 + warmth p * 0.12 - cool p * 0.05);
           lg = lg * (1.0 + warmth p * 0.02 - cool p * 0.01);
           lb = lb * (1.0 - warmth p * 0.10 + cool p * 0.12);
           shadow_weight = clamp (1.0 - lum * 1.8) 0 1;
           lr = lr - shadow_teal p * 0.03 * shadow_weight;
           lg = lg + shadow_teal p * 0.01 * shadow_weight;
           lb = lb + shadow_teal p * 0.04 * shadow_weight;
           lum2 = rgb_to_luma (lr, lg, lb);
           lr = lum2 + (lr - lum2) * saturation p;
           lg = lum2 + (lg - lum2) * saturation p;
           lb = lum2 + (lb - lum2) * saturation p;
           pivot = 0.18;
           lr = (lr - pivot) * contrast p + pivot;
           lg = (lg - pivot) * contrast p + pivot;
           lb = (lb - pivot) * contrast p + pivot;
           lr = (lr + lift p) * gain p;
           lg = (lg + lift p) * gain p;
           lb = (lb + lift p) * gain p
       in bind_result
            (if \<bar>gamma p - 1.0\<bar> > 1 / 10 ^ 6 then
               bind_result (py_pow (max lr 0) (gamma p)) (\<lambda>pr.
               bind_result (py_pow (max lg 0) (gamma p)) (\<lambda>pg.
               bind_result (py_pow (max lb 0) (gamma p)) (\<lambda>pb. Inr (pr, pg, pb))))
             else Inr (lr, lg, lb))
            encode_rgb)"

text \<open>
  The linear triple that \<^verbatim>\<open>grade_color\<close> holds when it reaches the gamma test of line 82:
  lines 55 to 80 on the decoded triple.
\<close>

definition pre_gamma :: "grade_params \<Rightarrow> Rgb \<Rightarrow> Rgb" where
  "pre_gamma p lin =
     (case lin of (lr, lg, lb) \<Rightarrow>
       let lum = rgb_to_luma (lr, lg, lb);
           lr = lr * (1.0 + warmth p * 0.12 - cool p * 0.05);
           lg = lg * (1.0 + warmth p * 0.02 - cool p * 0.01);
           lb = lb * (1.0 - warmth p * 0.10 + cool p * 0.12);
           shadow_weight = clamp (1.0 - lum * 1.8) 0 1;
           lr = lr - shadow_teal p * 0.03 * shadow_weight;
           lg = lg + shadow_teal p * 0.01 * shadow_weight;
           lb = lb + shadow_teal p * 0.04 * shadow_weight;
           lum2 = rgb_to_luma (lr, lg, lb);
           lr = lum2 + (lr - lum2) * saturation p;
           lg = lum2 + (lg - lum2) * saturation p;
           lb = lum2 + (lb - lum2) * saturation p;
           pivot = 0.18;
           lr = (lr - pivot) * contrast p + pivot;
           lg = (lg - pivot) * contrast p + pivot;
           lb = (lb - pivot) * contrast p + pivot;
           lr = (lr + lift p) * gain p;
           lg = (lg + lift p) * gain p;
           lb = (lb + lift p) * gain p
       in (lr, lg, lb))"

text \<open>
  \<^verbatim>\<open>grade_bw(rgb, weights, contrast, gamma, warm_tone)\<close>; the primes keep its arguments
  apart from the fields of \<open>grade_params\<close>. Its body is cut in three: the weighted sum of
  line 103, the base \<^verbatim>\<open>max(lum, 0.0)\<close> handed to \<^verbatim>\<open>pow\<close> in line 105 (lines 103 to 105),
  and the toning of lines 108 to 111.
\<close>

definition weighted_sum :: "Rgb \<Rightarrow> Rgb \<Rightarrow> real" where
  "weighted_sum lin weights =
     (case lin of (lr, lg, lb) \<Rightarrow> case weights of (w0, w1, w2) \<Rightarrow>
        lr * w0 + lg * w1 + lb * w2)"

definition bw_gamma_base :: "Rgb \<Rightarrow> Rgb \<Rightarrow> real \<Rightarrow> real" where
  "bw_gamma_base lin weights contrast' =
     (let lum = clamp (weighted_sum lin weights) 0 1;
          lum = clamp ((lum - 0.18) * contrast' + 0.18) 0 1
      in max lum 0)"

definition bw_tone :: "real \<Rightarrow> real \<Rightarrow> Rgb result" where
  "bw_tone warm_tone lum =
     bind_result (linear_to_srgb (clamp (lum * (1.0 + warm_tone * 0.025)) 0 1)) (\<lambda>r.
     bind_result (linear_to_srgb (clamp (lum * (1.0 + warm_tone * 0.008)) 0 1)) (\<lambda>g.
     bind_result (linear_to_srgb (clamp (lum * (1.0 - warm_tone * 0.02)) 0 1)) (\<lambda>b.
       Inr (clamp r 0 1, clamp g 0 1, clamp b 0 1))))"

definition grade_bw :: "Rgb \<Rightarrow> Rgb \<Rightarrow> real \<Rightarrow> real \<Rightarrow> real \<Rightarrow> Rgb result" where
  "grade_bw rgb weights contrast' gamma' warm_tone =
     bind_result (decode_rgb rgb) (\<lambda>lin.
     bind_result (py_pow (bw_gamma_base lin weights contrast') gamma') (bw_tone warm_tone))"

subsection \<open>Integers, ranges and byte arrays\<close>

text \<open>\<^verbatim>\<open>range(n)\<close>: empty when \<open>n\<close> is not positive.\<close>

definition py_range :: "int \<Rightarrow> int list" where
  "py_range n = map int [0..<nat n]"

text \<open>A \<^verbatim>\<open>for\<close> loop over a list whose body may raise.\<close>

fun for_each :: "('s \<Rightarrow> int \<Rightarrow> 's result) \<Rightarrow> int list \<Rightarrow> 's \<Rightarrow> 's result" where
  "for_each body [] s = Inr s"
| "for_each body (i # is) s = bind_result (body s i) (for_each body is)"

text \<open>\<^verbatim>\<open>bytearray(n)\<close>: \<open>n\<close> zero bytes; a negative count raises \<^verbatim>\<open>ValueError\<close>.\<close>

definition bytearray :: "int \<Rightarrow> byte list result" where
  "bytearray n = (if n < 0 then Inl ValueError else Inr (replicate (nat n) 0))"

text \<open>
  \<^verbatim>\<open>out[i] = v\<close> on a bytearray: the value must be in \<^verbatim>\<open>range(256)\<close>, a negative index
  counts from the end, and an index outside the array raises \<^verbatim>\<open>IndexError\<close>.
\<close>

definition bytearray_set :: "byte list \<Rightarrow> int \<Rightarrow> int \<Rightarrow> byte list result" where
  "bytearray_set out i v =
     (if v < 0 \<or> 255 < v then Inl ValueError
      else let n = int (length out); j = (if i < 0 then i + n else i)
           in if j < 0 \<or> n \<le> j then Inl IndexError
              else Inr (out[nat j := word_of_int v]))"

text \<open>
  \<^verbatim>\<open>xs[a:b]\<close>: a negative bound counts from the end, and both bounds are cut to the
  length; a slice never raises.
\<close>

definition py_slice :: "'a list \<Rightarrow> int \<Rightarrow> int \<Rightarrow> 'a list" where
  "py_slice xs a b =
     (let n = int (length xs);
          a' = (if a < 0 then max 0 (a + n) else min a n);
          b' = (if b < 0 then max 0 (b + n) else min b n)
      in take (nat (b' - a')) (drop (nat a') xs))"

subsection \<open>CubeSampler\<close>

definition hald_size :: "int \<Rightarrow> int" where
  "hald_size level = level * level"

definition hald_width :: "int \<Rightarrow> int" where
  "hald_width level = level * hald_size level"

text \<open>
  Lines 261 to 263 and lines 268 to 269, for a divisor that is not zero. The variable
  \<^verbatim>\<open>size\<close> of the source is \<open>size'\<close> here.
\<close>

definition cube_coords :: "int \<Rightarrow> int \<Rightarrow> int \<times> int \<times> int" where
  "cube_coords size' index =
     (index mod size', (index div size') mod size', index div (size' * size'))"

definition pixel_pos :: "int \<Rightarrow> int \<Rightarrow> int \<times> int" where
  "pixel_pos width index = (index mod width, index div width)"

text \<open>
  The body of the loop of \<^verbatim>\<open>generate_hald_lut\<close>. The integer divisions raise on a zero
  \<open>size\<close> or \<open>width\<close>, the float divisions on a zero \<open>denom\<close>, in the order of the source.
\<close>

definition hald_body ::
  "(Rgb \<Rightarrow> Rgb result) \<Rightarrow> int \<Rightarrow> int \<Rightarrow> real \<Rightarrow> byte list \<Rightarrow> int \<Rightarrow> byte list result" where
  "hald_body transform size' width denom out index =
     (if size' = 0 then Inl ZeroDivisionError
      else case cube_coords size' index of (r_index, g_index, b_index) \<Rightarrow>
        bind_result (float_div (of_int r_index) denom) (\<lambda>sr.
        bind_result (float_div (of_int g_index) denom) (\<lambda>sg.
        bind_result (float_div (of_int b_index) denom) (\<lambda>sb.
        bind_result (transform (sr, sg, sb)) (\<lambda>(r, g, b).
          if width = 0 then Inl ZeroDivisionError
          else case pixel_pos width index of (x, y) \<Rightarrow>
            let offset = (y * width + x) * 4
            in bind_result (bytearray_set out (offset + 0) (py_round (clamp r 0 1 * 255))) (\<lambda>out.
               bind_result (bytearray_set out (offset + 1) (py_round (clamp g 0 1 * 255))) (\<lambda>out.
               bind_result (bytearray_set out (offset + 2) (py_round (clamp b 0 1 * 255))) (\<lambda>out.
               bytearray_set out (offset + 3) 255))))))))"

definition generate_hald_lut :: "(Rgb \<Rightarrow> Rgb result) \<Rightarrow> int \<Rightarrow> byte list result" where
  "generate_hald_lut transform level =
     (let size' = hald_size level;
          width = hald_width level;
          height = width;
          total_pixels = size' * size' * size'
      in bind_result (bytearray (width * height * 4)) (\<lambda>out.
           let denom = of_int (size' - 1)
           in for_each (hald_body transform size' width denom) (py_range total_pixels) out))"

subsection \<open>ImageEncoder\<close>

text \<open>
  \<^verbatim>\<open>struct.pack(">I", n)\<close>: four bytes, most significant first; a value outside
  \<open>0 .. 2^32 - 1\<close> raises \<^verbatim>\<open>struct.error\<close>.
\<close>

definition struct_pack_I :: "int \<Rightarrow> byte list result" where
  "struct_pack_I n =
     (if n < 0 \<or> 2 ^ 32 \<le> n then Inl StructError
      else Inr [word_of_int (n div 2 ^ 24), word_of_int (n div 2 ^ 16),
                word_of_int (n div 2 ^ 8), word_of_int n])"

definition bytes_of :: "string \<Rightarrow> byte list" where
  "bytes_of s = map (\<lambda>c. of_nat (of_char c)) s"

text \<open>\<^verbatim>\<open>b"\x89PNG\r\n\x1a\n"\<close>\<close>

definition png_signature :: "byte list" where
  "png_signature = [0x89, 0x50, 0x4E, 0x47, 0x0D, 0x0A, 0x1A, 0x0A]"

text \<open>
  The local function \<^verbatim>\<open>chunk\<close>. The checksum \<^verbatim>\<open>zlib.crc32\<close> and the compressor
  \<^verbatim>\<open>zlib.compress\<close> belong to the standard library, not to this program: they are
  parameters \<open>crc32\<close> and \<open>compress\<close> (data, then level) of the encoder.
\<close>

definition chunk :: "(byte list \<Rightarrow> int) \<Rightarrow> byte list \<Rightarrow> byte list \<Rightarrow> byte list result" where
  "chunk crc32 tag payload =
     (let crc = crc32 (tag @ payload) AND 0xFFFFFFFF
      in bind_result (struct_pack_I (int (length payload))) (\<lambda>len_bytes.
         bind_result (struct_pack_I crc) (\<lambda>crc_bytes.
           Inr (len_bytes @ tag @ payload @ crc_bytes))))"

definition scanlines_of :: "int \<Rightarrow> int \<Rightarrow> byte list \<Rightarrow> byte list" where
  "scanlines_of width height rgba =
     (let stride = width * 4
      in foldl (\<lambda>scanlines y.
                  let start = y * stride
                  in (scanlines @ [0]) @ py_slice rgba start (start + stride))
           [] (py_range height))"

text \<open>\<^verbatim>\<open>struct.pack(">IIBBBBB", width, height, 8, 6, 0, 0, 0)\<close>\<close>

definition pack_ihdr :: "int \<Rightarrow> int \<Rightarrow> byte list result" where
  "pack_ihdr width height =
     bind_result (struct_pack_I width) (\<lambda>w.
     bind_result (struct_pack_I height) (\<lambda>h. Inr (w @ h @ [8, 6, 0, 0, 0])))"

text \<open>
  The file system is a map from paths to contents. \<^verbatim>\<open>write_png_rgba\<close> returns what it
  raised, if anything, and the file system it leaves.
\<close>

type_synonym filesystem = "string \<rightharpoonup> byte list"

definition write_png_rgba ::
  "(byte list \<Rightarrow> int) \<Rightarrow> (byte list \<Rightarrow> int \<Rightarrow> byte list) \<Rightarrow>
   filesystem \<Rightarrow> string \<Rightarrow> int \<Rightarrow> int \<Rightarrow> byte list \<Rightarrow> unit result \<times> filesystem" where
  "write_png_rgba crc32 compress fs path width height rgba =
     (if int (length rgba) \<noteq> width * height * 4 then (Inl ValueError, fs)
      else
        let scanlines = scanlines_of width height rgba;
            png =
              bind_result (pack_ihdr width height) (\<lambda>ihdr.
              let idat = compress scanlines 9
              in bind_result (chunk crc32 (bytes_of ''IHDR'') ihdr) (\<lambda>c1.
                 bind_result (chunk crc32 (bytes_of ''IDAT'') idat) (\<lambda>c2.
                 bind_result (chunk crc32 (bytes_of ''IEND'') []) (\<lambda>c3.
                   Inr (((png_signature @ c1) @ c2) @ c3)))))
        in case png of
             Inl e \<Rightarrow> (Inl e, fs)
           | Inr bytes \<Rightarrow> (Inr (), fs(path \<mapsto> bytes)))"

subsection \<open>The grading pipeline as the specification words it\<close>

text \<open>
  The six stages of the full-colour grade, each a function on linear triples, and their
  composition in the order the specification gives. The coefficients are those of the
  source. The luma that weighs the shadow bias is the luma of the decoded input, before
  the white balance; the saturation stage recomputes it on its own input.
\<close>

definition spec_white_balance :: "grade_params \<Rightarrow> Rgb \<Rightarrow> Rgb" where
  "spec_white_balance p lin =
     (case lin of (lr, lg, lb) \<Rightarrow>
        (lr * (1.0 + warmth p * 0.12 - cool p * 0.05),
         lg * (1.0 + warmth p * 0.02 - cool p * 0.01),
         lb * (1.0 - warmth p * 0.10 + cool p * 0.12)))"

definition spec_shadow_weight :: "real \<Rightarrow> real" where
  "spec_shadow_weight luma = clamp (1.0 - luma * 1.8) 0 1"

definition spec_shadow_bias :: "grade_params \<Rightarrow> real \<Rightarrow> Rgb \<Rightarrow> Rgb" where
  "spec_shadow_bias p w lin =
     (case lin of (lr, lg, lb) \<Rightarrow>
        (lr - shadow_teal p * 0.03 * w, lg + shadow_teal p * 0.01 * w,
         lb + shadow_teal p * 0.04 * w))"

definition spec_interpolate :: "real \<Rightarrow> real \<Rightarrow> real \<Rightarrow> real" where
  "spec_interpolate target factor v = target + (v - target) * factor"

definition spec_saturation :: "grade_params \<Rightarrow> Rgb \<Rightarrow> Rgb" where
  "spec_saturation p lin =
     (case lin of (lr, lg, lb) \<Rightarrow>
        let luma = rgb_to_luma lin
        in (spec_interpolate luma (saturation p) lr, spec_interpolate luma (saturation p) lg,
            spec_interpolate luma (saturation p) lb))"

definition spec_contrast :: "grade_params \<Rightarrow> Rgb \<Rightarrow> Rgb" where
  "spec_contrast p lin =
     (case lin of (lr, lg, lb) \<Rightarrow>
        ((lr - 0.18) * contrast p + 0.18, (lg - 0.18) * contrast p + 0.18,
         (lb - 0.18) * contrast p + 0.18))"

definition spec_lift_gain :: "grade_params \<Rightarrow> Rgb \<Rightarrow> Rgb" where
  "spec_lift_gain p lin =
     (case lin of (lr, lg, lb) \<Rightarrow>
        ((lr + lift p) * gain p, (lg + lift p) * gain p, (lb + lift p) * gain p))"

definition spec_gamma :: "grade_params \<Rightarrow> Rgb \<Rightarrow> Rgb result" where
  "spec_gamma p lin =
     (case lin of (lr, lg, lb) \<Rightarrow>
        if \<bar>gamma p - 1.0\<bar> > 1 / 10 ^ 6 then
          bind_result (py_pow (max lr 0) (gamma p)) (\<lambda>pr.
          bind_result (py_pow (max lg 0) (gamma p)) (\<lambda>pg.
          bind_result (py_pow (max lb 0) (gamma p)) (\<lambda>pb. Inr (pr, pg, pb))))
        else Inr (lr, lg, lb))"

definition spec_output_channel :: "real \<Rightarrow> real result" where
  "spec_output_channel v =
     bind_result (linear_to_srgb (clamp v 0 1)) (\<lambda>e. Inr (clamp e 0 1))"

definition spec_output :: "Rgb \<Rightarrow> Rgb result" where
  "spec_output lin =
     (case lin of (lr, lg, lb) \<Rightarrow>
        bind_result (spec_output_channel lr) (\<lambda>r.
        bind_result (spec_output_channel lg) (\<lambda>g.
        bind_result (spec_output_channel lb) (\<lambda>b. Inr (r, g, b)))))"

definition spec_grade_color :: "Rgb \<Rightarrow> grade_params \<Rightarrow> Rgb result" where
  "spec_grade_color rgb p =
     bind_result (decode_rgb rgb) (\<lambda>lin.
       let stage1 = spec_white_balance p lin;
           stage2 = spec_shadow_bias p (spec_shadow_weight (rgb_to_luma lin)) stage1;
           stage3 = spec_saturation p stage2;
           stage4 = spec_contrast p stage3;
           stage5 = spec_lift_gain p stage4
       in bind_result (spec_gamma p stage5) spec_output)"

subsection \<open>The container as the specification words it\<close>

text \<open>
  A reader for the chunk sequence that follows the signature, written from the
  specification's description of a chunk: a four-byte big-endian payload length, a
  four-byte tag, the payload, and a four-byte big-endian CRC-32 over tag and payload. It
  returns the tags and payloads in order, or \<open>None\<close> when a declared length overruns the
  stream or a checksum does not verify. The CRC-32 of a byte string is the low 32 bits of
  what the checksum service returns.
\<close>

definition spec_be32 :: "byte list \<Rightarrow> nat" where
  "spec_be32 bs = foldl (\<lambda>acc b. acc * 256 + unat b) 0 bs"

function spec_read_chunks ::
  "(byte list \<Rightarrow> int) \<Rightarrow> byte list \<Rightarrow> (byte list \<times> byte list) list option" where
  "spec_read_chunks crc32 bs =
     (if bs = [] then Some []
      else if length bs < 12 then None
      else
        let n = spec_be32 (take 4 bs);
            tag = take 4 (drop 4 bs)
        in if length bs < 12 + n then None
           else
             let payload = take n (drop 8 bs);
                 crc = spec_be32 (take 4 (drop (8 + n) bs))
             in if int crc \<noteq> crc32 (tag @ payload) AND 0xFFFFFFFF then None
                else map_option ((#) (tag, payload))
                       (spec_read_chunks crc32 (drop (12 + n) bs)))"
  by pat_completeness auto
termination
  by (relation "measure (\<lambda>(crc32, bs). length bs)") auto

declare spec_read_chunks.simps [simp del]

section \<open>Properties\<close>

subsection \<open>Sequencing, clamping and powers\<close>

lemma bind_result_Inr [simp]: "bind_result (Inr v) f = f v"
  by (simp add: bind_result_def)

lemma bind_result_Inl [simp]: "bind_result (Inl e) f = Inl e"
  by (simp add: bind_result_def)

lemma clamp_bounds: "0 \<le> clamp v 0 1" "clamp v 0 1 \<le> 1"
  by (simp_all add: clamp_def)

lemma clamp_id: "0 \<le> v \<Longrightarrow> v \<le> 1 \<Longrightarrow> clamp v 0 1 = v"
  by (simp add: clamp_def)

lemma float_max_ge_1: "1 \<le> float_max"
  by (simp add: float_max_def)

lemma py_pow_pos: "0 < x \<Longrightarrow> x powr y \<le> float_max \<Longrightarrow> py_pow x y = Inr (x powr y)"
  by (simp add: py_pow_def)

lemma py_pow_unit:
  assumes "0 < x" "x \<le> 1" "0 \<le> y"
  shows "py_pow x y = Inr (x powr y)"
proof -
  have "x powr y \<le> 1" by (rule powr_le1) (use assms in simp_all)
  then have "x powr y \<le> float_max" using float_max_ge_1 by linarith
  with assms(1) show ?thesis by (rule py_pow_pos)
qed

lemma powr_5_12_pow: "0 < (x::real) \<Longrightarrow> (x powr (5 / 12)) ^ 12 = x ^ 5"
proof -
  assume x: "0 < x"
  have "(x powr (5 / 12)) ^ 12 = (x powr (5 / 12)) powr (real 12)"
    using x by (subst powr_realpow) simp_all
  also have "\<dots> = x powr 5" by (simp add: powr_powr)
  also have "\<dots> = x ^ 5" using x powr_realpow [of x 5] by simp
  finally show ?thesis .
qed

lemma powr_12_5_pow: "0 < (x::real) \<Longrightarrow> (x powr (12 / 5)) ^ 5 = x ^ 12"
proof -
  assume x: "0 < x"
  have "(x powr (12 / 5)) ^ 5 = (x powr (12 / 5)) powr (real 5)"
    using x by (subst powr_realpow) simp_all
  also have "\<dots> = x powr 12" by (simp add: powr_powr)
  also have "\<dots> = x ^ 12" using x powr_realpow [of x 12] by simp
  finally show ?thesis .
qed

lemma pow_le_base:
  fixes a b :: real
  assumes "a ^ n \<le> b ^ n" "0 \<le> b" "0 < n"
  shows "a \<le> b"
proof (rule ccontr)
  assume "\<not> a \<le> b"
  then have "b < a" by simp
  then have "b ^ n < a ^ n" using assms(2,3) by (intro power_strict_mono) simp_all
  with assms(1) show False by simp
qed

lemma powr_5_12_ge: 
  "0 < x \<Longrightarrow> 0 \<le> y \<Longrightarrow> y ^ 12 \<le> x ^ 5 \<Longrightarrow> y \<le> x powr (5 / 12)"
  for x y :: real
proof -
  assume x: "0 < x" and y: "0 \<le> y" and h: "y ^ 12 \<le> x ^ 5"
  have "y ^ 12 \<le> (x powr (5 / 12)) ^ 12" using h x by (simp add: powr_5_12_pow)
  then show ?thesis by (rule pow_le_base) simp_all
qed

lemma powr_5_12_le: 
  "0 < x \<Longrightarrow> 0 \<le> y \<Longrightarrow> x ^ 5 \<le> y ^ 12 \<Longrightarrow> x powr (5 / 12) \<le> y"
  for x y :: real
proof -
  assume x: "0 < x" and y: "0 \<le> y" and h: "x ^ 5 \<le> y ^ 12"
  have "(x powr (5 / 12)) ^ 12 \<le> y ^ 12" using h x by (simp add: powr_5_12_pow)
  then show ?thesis using y by (rule pow_le_base) simp
qed

lemma powr_12_5_gt: 
  "0 < x \<Longrightarrow> 0 \<le> y \<Longrightarrow> y ^ 5 < x ^ 12 \<Longrightarrow> y < x powr (12 / 5)"
  for x y :: real
proof -
  assume x: "0 < x" and y: "0 \<le> y" and h: "y ^ 5 < x ^ 12"
  have "y ^ 5 < (x powr (12 / 5)) ^ 5" using h x by (simp add: powr_12_5_pow)
  then show ?thesis by (rule power_less_imp_less_base) simp
qed

lemma py_pow_in_range:
  "0 \<le> x \<Longrightarrow> 0 \<le> y \<Longrightarrow> x powr y \<le> float_max \<Longrightarrow> \<exists>v. py_pow x y = Inr v"
  by (simp add: py_pow_def)

lemma py_pow_unit_total:
  assumes "0 \<le> x" "x \<le> 1" "0 \<le> y"
  shows "\<exists>v. py_pow x y = Inr v"
proof -
  have "x powr y \<le> 1" by (rule powr_le1) (use assms in simp_all)
  then have "x powr y \<le> float_max" using float_max_ge_1 by linarith
  with assms(1,3) show ?thesis by (rule py_pow_in_range)
qed

subsection \<open>The transfer functions\<close>

lemma srgb_to_linear_lo:
  "clamp ch 0 1 \<le> 0.04045 \<Longrightarrow> srgb_to_linear ch = Inr (clamp ch 0 1 / 12.92)"
  by (simp add: srgb_to_linear_def Let_def)

lemma srgb_to_linear_hi:
  "\<not> clamp ch 0 1 \<le> 0.04045 \<Longrightarrow>
   srgb_to_linear ch = Inr (((clamp ch 0 1 + 0.055) / 1.055) powr 2.4)"
proof -
  assume h: "\<not> clamp ch 0 1 \<le> 0.04045"
  let ?b = "(clamp ch 0 1 + 0.055) / 1.055"
  have "0 < ?b" "?b \<le> 1" using clamp_bounds [of ch] by simp_all
  then have "py_pow ?b 2.4 = Inr (?b powr 2.4)" by (rule py_pow_unit) simp
  with h show ?thesis by (simp add: srgb_to_linear_def Let_def)
qed

lemma srgb_to_linear_total: "\<exists>v. srgb_to_linear ch = Inr v \<and> 0 \<le> v \<and> v \<le> 1"
proof (cases "clamp ch 0 1 \<le> 0.04045")
  case True
  have "0 \<le> clamp ch 0 1 / 12.92" "clamp ch 0 1 / 12.92 \<le> 1"
    using clamp_bounds [of ch] by simp_all
  with srgb_to_linear_lo [OF True] show ?thesis by blast
next
  case False
  let ?b = "(clamp ch 0 1 + 0.055) / 1.055"
  have b: "0 < ?b" "?b \<le> 1" using clamp_bounds [of ch] by simp_all
  have "?b powr 2.4 \<le> 1" by (rule powr_le1) (use b in simp_all)
  moreover have "0 \<le> ?b powr 2.4" by simp
  ultimately show ?thesis using srgb_to_linear_hi [OF False] by blast
qed

lemma linear_to_srgb_lo:
  "clamp x 0 1 \<le> 0.0031308 \<Longrightarrow> linear_to_srgb x = Inr (clamp x 0 1 * 12.92)"
  by (simp add: linear_to_srgb_def Let_def)

lemma linear_to_srgb_hi:
  "\<not> clamp x 0 1 \<le> 0.0031308 \<Longrightarrow>
   linear_to_srgb x = Inr (1.055 * (clamp x 0 1 powr (5 / 12)) - 0.055)"
proof -
  assume h: "\<not> clamp x 0 1 \<le> 0.0031308"
  then have "0 < clamp x 0 1" by simp
  then have "py_pow (clamp x 0 1) (5 / 12) = Inr (clamp x 0 1 powr (5 / 12))"
    using clamp_bounds(2) [of x] by (rule py_pow_unit) simp
  then have "py_pow (clamp x 0 1) (1.0 / 2.4) = Inr (clamp x 0 1 powr (5 / 12))"
    by simp
  with h show ?thesis by (simp add: linear_to_srgb_def Let_def)
qed

lemma linear_to_srgb_total: "\<exists>v. linear_to_srgb x = Inr v"
  using linear_to_srgb_lo [of x] linear_to_srgb_hi [of x] by blast

lemma srgb_to_linear_low:
  "0 \<le> c \<Longrightarrow> c \<le> 0.04045 \<Longrightarrow> srgb_to_linear c = Inr (c / 12.92)"
  by (simp add: srgb_to_linear_def Let_def clamp_def)

lemma srgb_to_linear_high:
  "0.04045 < c \<Longrightarrow> c \<le> 1 \<Longrightarrow> srgb_to_linear c = Inr (((c + 0.055) / 1.055) powr 2.4)"
  using srgb_to_linear_hi [of c] by (simp add: clamp_def)

lemma linear_to_srgb_low:
  "0 \<le> x \<Longrightarrow> x \<le> 0.0031308 \<Longrightarrow> linear_to_srgb x = Inr (x * 12.92)"
  by (simp add: linear_to_srgb_def Let_def clamp_def)

lemma linear_to_srgb_high:
  "0.0031308 < x \<Longrightarrow> x \<le> 1 \<Longrightarrow>
   linear_to_srgb x = Inr (1.055 * (x powr (5 / 12)) - 0.055)"
  using linear_to_srgb_hi [of x] by (simp add: clamp_def)

lemma srgb_to_linear_0: "srgb_to_linear 0 = Inr 0"
  by (simp add: srgb_to_linear_def clamp_def)

lemma srgb_to_linear_1: "srgb_to_linear 1 = Inr 1"
  using srgb_to_linear_high [of 1] by simp

lemma linear_to_srgb_0: "linear_to_srgb 0 = Inr 0"
  by (simp add: linear_to_srgb_def clamp_def)

lemma linear_to_srgb_1: "linear_to_srgb 1 = Inr 1"
  using linear_to_srgb_high [of 1] by simp

lemma decode_rgb_black: "decode_rgb (0, 0, 0) = Inr (0, 0, 0)"
  by (simp add: decode_rgb_def srgb_to_linear_0)

lemma decode_rgb_white: "decode_rgb (1, 1, 1) = Inr (1, 1, 1)"
  by (simp add: decode_rgb_def srgb_to_linear_1)

text \<open>
  Decoding then encoding. Below the breakpoint \<open>0.04045\<close> the decoded value \<open>c / 12.92\<close>
  can exceed the encoder's own breakpoint \<open>0.0031308\<close> (when \<open>c > 0.040449936\<close>); there
  the encoder takes its power branch and the result differs from \<open>c\<close>, by less than
  \<open>10\<^sup>-\<^sup>4\<close>. Everywhere else the round trip is exact.
\<close>

lemma roundtrip_low:
  fixes c :: real
  assumes c: "0 \<le> c" "c \<le> 0.04045"
  shows "\<exists>e. linear_to_srgb (c / 12.92) = Inr e \<and> \<bar>e - c\<bar> \<le> 1 / 10 ^ 4"
proof -
  define l where "l = c / 12.92"
  have l: "0 \<le> l" "l \<le> 1" "l * 12.92 = c" using c by (simp_all add: l_def)
  show ?thesis unfolding l_def [symmetric]
  proof (cases "l \<le> 0.0031308")
    case True
    have "linear_to_srgb l = Inr (l * 12.92)"
      using l(1) True by (rule linear_to_srgb_low)
    then have "linear_to_srgb l = Inr c" by (simp only: l(3))
    moreover have "\<bar>c - c\<bar> \<le> 1 / 10 ^ 4" by simp
    ultimately show "\<exists>e. linear_to_srgb l = Inr e \<and> \<bar>e - c\<bar> \<le> 1 / 10 ^ 4"
      by blast
  next
    case False
    then have l0: "0.0031308 < l" by simp
    have e: "linear_to_srgb l = Inr (1.055 * (l powr (5 / 12)) - 0.055)"
      using l0 l(2) by (rule linear_to_srgb_high)
    have lpos: "0 < l" using l0 by simp
    have lo: "(0.0031308 :: real) ^ 5 \<le> l ^ 5"
      using l0 by (intro power_mono) simp_all
    have "l \<le> 0.04045 / 12.92" using c(2) by (simp add: l_def)
    then have hi: "l ^ 5 \<le> (0.04045 / 12.92 :: real) ^ 5"
      using l(1) by (intro power_mono)
    have "(0.09047 :: real) ^ 12 \<le> 0.0031308 ^ 5" by (simp add: power_divide)
    with lo have "(0.09047 :: real) ^ 12 \<le> l ^ 5" by linarith
    then have p_lo: "0.09047 \<le> l powr (5 / 12)"
      using lpos by (intro powr_5_12_ge) simp_all
    have "(0.04045 / 12.92 :: real) ^ 5 \<le> 0.09048 ^ 12" by (simp add: power_divide)
    with hi have "l ^ 5 \<le> (0.09048 :: real) ^ 12" by linarith
    then have p_hi: "l powr (5 / 12) \<le> 0.09048"
      using lpos by (intro powr_5_12_le) simp_all
    have c_lo: "0.0404 < c" using l0 by (simp add: l_def)
    have "\<bar>(1.055 * (l powr (5 / 12)) - 0.055) - c\<bar> \<le> 1 / 10 ^ 4"
      using p_lo p_hi c_lo c(2) by (intro abs_leI) simp_all
    with e show "\<exists>e. linear_to_srgb l = Inr e \<and> \<bar>e - c\<bar> \<le> 1 / 10 ^ 4" by blast
  qed
qed

lemma roundtrip_high:
  fixes c :: real
  assumes c: "0.04045 < c" "c \<le> 1"
  shows "linear_to_srgb (((c + 0.055) / 1.055) powr 2.4) = Inr c"
proof -
  define b where "b = (c + 0.055) / 1.055"
  define l where "l = b powr 2.4"
  have b: "0 < b" "b \<le> 1" "1.055 * b - 0.055 = c"
    using c by (simp_all add: b_def field_simps)
  have b0: "0.09545 / 1.055 < b" using c by (simp add: b_def)
  have l1: "l \<le> 1" unfolding l_def by (rule powr_le1) (use b in simp_all)
  have "(0.0031308 :: real) ^ 5 < (0.09545 / 1.055) ^ 12" by (simp add: power_divide)
  also have "\<dots> < b ^ 12" using b0 by (intro power_strict_mono) simp_all
  finally have "0.0031308 < b powr (12 / 5)"
    using b by (intro powr_12_5_gt) simp_all
  then have l0: "0.0031308 < l" by (simp add: l_def)
  have "linear_to_srgb l = Inr (1.055 * (l powr (5 / 12)) - 0.055)"
    using l0 l1 by (rule linear_to_srgb_high)
  moreover have "l powr (5 / 12) = b" using b by (simp add: l_def powr_powr)
  ultimately have "linear_to_srgb l = Inr (1.055 * b - 0.055)" by (simp only:)
  then have "linear_to_srgb l = Inr c" by (simp only: b(3))
  then show ?thesis by (simp only: l_def b_def)
qed

lemma roundtrip_bound:
  fixes c :: real
  assumes c: "0 \<le> c" "c \<le> 1"
  shows "\<exists>l e. srgb_to_linear c = Inr l \<and> linear_to_srgb l = Inr e \<and> \<bar>e - c\<bar> \<le> 1 / 10 ^ 4"
proof (cases "c \<le> 0.04045")
  case True
  have "srgb_to_linear c = Inr (c / 12.92)"
    using c(1) True by (rule srgb_to_linear_low)
  with roundtrip_low [OF c(1) True] show ?thesis by blast
next
  case False
  then have h: "0.04045 < c" by simp
  have "srgb_to_linear c = Inr (((c + 0.055) / 1.055) powr 2.4)"
    using h c(2) by (rule srgb_to_linear_high)
  moreover have "linear_to_srgb (((c + 0.055) / 1.055) powr 2.4) = Inr c"
    using h c(2) by (rule roundtrip_high)
  moreover have "\<bar>c - c\<bar> \<le> 1 / 10 ^ 4" by simp
  ultimately show ?thesis by blast
qed

subsection \<open>Decoding, encoding and the shape of the grades\<close>

lemma decode_rgb_total:
  "\<exists>lr lg lb. decode_rgb (r, g, b) = Inr (lr, lg, lb) \<and>
     srgb_to_linear r = Inr lr \<and> srgb_to_linear g = Inr lg \<and> srgb_to_linear b = Inr lb"
proof -
  obtain lr where "srgb_to_linear r = Inr lr" using srgb_to_linear_total by blast
  moreover obtain lg where "srgb_to_linear g = Inr lg" using srgb_to_linear_total by blast
  moreover obtain lb where "srgb_to_linear b = Inr lb" using srgb_to_linear_total by blast
  ultimately show ?thesis by (simp add: decode_rgb_def)
qed




lemma bw_gamma_base_range:
  "0 \<le> bw_gamma_base lin w c" "bw_gamma_base lin w c \<le> 1"
  by (simp_all add: bw_gamma_base_def Let_def clamp_def)

lemma grade_color_pre_gamma:
  assumes "decode_rgb rgb = Inr lin" "pre_gamma p lin = (x1, x2, x3)"
  shows "grade_color rgb p =
           bind_result
             (if \<bar>gamma p - 1.0\<bar> > 1 / 10 ^ 6 then
                bind_result (py_pow (max x1 0) (gamma p)) (\<lambda>pr.
                bind_result (py_pow (max x2 0) (gamma p)) (\<lambda>pg.
                bind_result (py_pow (max x3 0) (gamma p)) (\<lambda>pb. Inr (pr, pg, pb))))
              else Inr (x1, x2, x3))
             encode_rgb"
proof -
  obtain lr lg lb where lin: "lin = (lr, lg, lb)" by (cases lin) auto
  have pg: "pre_gamma p (lr, lg, lb) = (x1, x2, x3)" using assms(2) by (simp only: lin)
  show ?thesis
    unfolding grade_color_def assms(1) lin
    using pg [unfolded pre_gamma_def]
    by (simp only: bind_result_Inr prod.case Let_def prod.inject)
qed

lemma bw_tone_neutral: "\<exists>v. bw_tone 0 lum = Inr (v, v, v)"
proof -
  obtain e where "linear_to_srgb (clamp lum 0 1) = Inr e" using linear_to_srgb_total by blast
  then show ?thesis by (simp add: bw_tone_def)
qed

lemma bw_gamma_base_eq:
  "bw_gamma_base (lr, lg, lb) (w0, w1, w2) c' =
     clamp ((clamp (lr * w0 + lg * w1 + lb * w2) 0 1 - 0.18) * c' + 0.18) 0 1"
  by (simp add: bw_gamma_base_def weighted_sum_def Let_def clamp_def)

lemma spec_output_encode: "spec_output lin = encode_rgb lin"
proof -
  obtain a b c where lin: "lin = (a, b, c)" by (cases lin) auto
  obtain ea where ea: "linear_to_srgb (clamp a 0 1) = Inr ea" using linear_to_srgb_total by blast
  obtain eb where eb: "linear_to_srgb (clamp b 0 1) = Inr eb" using linear_to_srgb_total by blast
  obtain ec where ec: "linear_to_srgb (clamp c 0 1) = Inr ec" using linear_to_srgb_total by blast
  show ?thesis
    by (simp add: lin spec_output_def spec_output_channel_def encode_rgb_def ea eb ec)
qed

lemma clamp_closer:
  assumes "0 \<le> c" "c \<le> 1" "\<bar>e - c\<bar> \<le> d"
  shows "\<bar>clamp e 0 1 - c\<bar> \<le> d"
  using assms by (auto simp: clamp_def max_def min_def abs_le_iff)

lemma encode_decoded_channel:
  fixes c :: real
  assumes "0 \<le> c" "c \<le> 1"
  shows "\<exists>l e. srgb_to_linear c = Inr l \<and> linear_to_srgb (clamp l 0 1) = Inr e \<and>
           \<bar>clamp e 0 1 - c\<bar> \<le> 1 / 10 ^ 3"
proof -
  obtain l e where l: "srgb_to_linear c = Inr l" and e: "linear_to_srgb l = Inr e"
    and d: "\<bar>e - c\<bar> \<le> 1 / 10 ^ 4"
    using roundtrip_bound [OF assms] by blast
  obtain l' where "srgb_to_linear c = Inr l'" "0 \<le> l'" "l' \<le> 1"
    using srgb_to_linear_total by blast
  with l have "0 \<le> l" "l \<le> 1" by simp_all
  then have cl: "clamp l 0 1 = l" by (rule clamp_id)
  have "\<bar>e - c\<bar> \<le> 1 / 10 ^ 3" using d by simp
  then have "\<bar>clamp e 0 1 - c\<bar> \<le> 1 / 10 ^ 3" using assms by (intro clamp_closer)
  with l e cl show ?thesis by (metis)
qed

lemma grade_color_default:
  assumes "decode_rgb rgb = Inr lin"
  shows "grade_color rgb default_params = encode_rgb lin"
proof -
  obtain lr lg lb where lin: "lin = (lr, lg, lb)" by (cases lin) auto
  show ?thesis
    by (simp add: grade_color_def assms lin default_params_def Let_def)
qed

subsection \<open>The cube sampler\<close>

lemma py_round_byte:
  assumes "0 \<le> x" "x \<le> 1"
  shows "0 \<le> py_round (x * 255) \<and> py_round (x * 255) \<le> 255"
proof -
  define f where "f = \<lfloor>x * 255\<rfloor>"
  define d where "d = x * 255 - of_int f"
  have r: "py_round (x * 255) =
      (if d < 1 / 2 then f else if 1 / 2 < d then f + 1 else if even f then f else f + 1)"
    by (simp only: py_round_def Let_def f_def d_def)
  have f0: "0 \<le> f" using assms by (simp add: f_def)
  have "x * 255 \<le> 255" using assms by simp
  then have "\<lfloor>x * 255\<rfloor> \<le> \<lfloor>255 :: real\<rfloor>" by (rule floor_mono)
  then have f1: "f \<le> 255" by (simp add: f_def)
  have fx: "of_int f \<le> x * 255" unfolding f_def by (rule of_int_floor_le)
  show ?thesis
  proof (cases "f = 255")
    case True
    then have "d \<le> 0" using \<open>x * 255 \<le> 255\<close> by (simp add: d_def)
    then have "py_round (x * 255) = f" unfolding r by simp
    then show ?thesis using True by simp
  next
    case False
    then have "f \<le> 254" using f1 by linarith
    then show ?thesis unfolding r using f0 by auto
  qed
qed

lemma bytearray_set_ok:
  assumes "0 \<le> i" "i < int (length out)" "0 \<le> v" "v \<le> 255"
  shows "\<exists>out'. bytearray_set out i v = Inr out' \<and> length out' = length out"
  using assms by (simp add: bytearray_set_def Let_def)

lemma pixel_offset:
  "(case pixel_pos width index of (x, y) \<Rightarrow> (y * width + x) * 4) = index * 4"
proof -
  have "index div width * width + index mod width = index" by (rule div_mult_mod_eq)
  then show ?thesis by (simp only: pixel_pos_def prod.case)
qed

lemma hald_body_ok:
  assumes sz: "size' \<noteq> 0" and w: "width \<noteq> 0" and d: "denom \<noteq> 0"
    and tr: "\<forall>c. \<exists>v. transform c = Inr v"
    and i0: "0 \<le> index" and i1: "(index + 1) * 4 \<le> int (length out)"
  shows "\<exists>out'. hald_body transform size' width denom out index = Inr out' \<and>
           length out' = length out"
proof -
  obtain ri gi bi where cc: "cube_coords size' index = (ri, gi, bi)"
    by (cases "cube_coords size' index") auto
  obtain r g b where t: "transform (of_int ri / denom, of_int gi / denom, of_int bi / denom)
      = Inr (r, g, b)"
    using tr by (metis prod_cases3)
  obtain x y where pp: "pixel_pos width index = (x, y)" by (cases "pixel_pos width index") auto
  have off: "(y * width + x) * 4 = index * 4" using pixel_offset [of width index] pp by simp
  have rb: "0 \<le> py_round (clamp c 0 1 * 255) \<and> py_round (clamp c 0 1 * 255) \<le> 255" for c
    by (rule py_round_byte) (rule clamp_bounds)+
  obtain o1 where o1: "bytearray_set out (index * 4 + 0) (py_round (clamp r 0 1 * 255)) = Inr o1"
    "length o1 = length out"
    using bytearray_set_ok [of "index * 4 + 0" out "py_round (clamp r 0 1 * 255)"] rb i0 i1
    by auto
  obtain o2 where o2: "bytearray_set o1 (index * 4 + 1) (py_round (clamp g 0 1 * 255)) = Inr o2"
    "length o2 = length out"
    using bytearray_set_ok [of "index * 4 + 1" o1 "py_round (clamp g 0 1 * 255)"] rb i0 i1 o1(2)
    by auto
  obtain o3 where o3: "bytearray_set o2 (index * 4 + 2) (py_round (clamp b 0 1 * 255)) = Inr o3"
    "length o3 = length out"
    using bytearray_set_ok [of "index * 4 + 2" o2 "py_round (clamp b 0 1 * 255)"] rb i0 i1 o2(2)
    by auto
  obtain o4 where o4: "bytearray_set o3 (index * 4 + 3) 255 = Inr o4" "length o4 = length out"
    using bytearray_set_ok [of "index * 4 + 3" o3 255] i0 i1 o3(2) by auto
  have "hald_body transform size' width denom out index = Inr o4"
    unfolding hald_body_def
    by (simp only: sz w d cc pp t off o1 o2 o3 o4 float_div_def if_False prod.case
        bind_result_Inr Let_def)
  with o4(2) show ?thesis by simp
qed

lemma for_each_hald_ok:
  assumes sz: "size' \<noteq> 0" and w: "width \<noteq> 0" and d: "denom \<noteq> 0"
    and tr: "\<forall>c. \<exists>v. transform c = Inr v"
  shows "(\<forall>i \<in> set ixs. 0 \<le> i \<and> (i + 1) * 4 \<le> int (length out)) \<Longrightarrow>
         \<exists>out'. for_each (hald_body transform size' width denom) ixs out = Inr out' \<and>
           length out' = length out"
proof (induction ixs arbitrary: out)
  case Nil
  then show ?case by simp
next
  case (Cons i ixs)
  then have "0 \<le> i" "(i + 1) * 4 \<le> int (length out)" by simp_all
  then obtain o1 where o1: "hald_body transform size' width denom out i = Inr o1"
    "length o1 = length out"
    using hald_body_ok [OF sz w d tr] by blast
  have "\<forall>j \<in> set ixs. 0 \<le> j \<and> (j + 1) * 4 \<le> int (length o1)"
    using Cons.prems o1(2) by simp
  then obtain o2 where "for_each (hald_body transform size' width denom) ixs o1 = Inr o2"
    "length o2 = length o1"
    using Cons.IH by blast
  then show ?case using o1 by simp
qed

subsection \<open>The encoder\<close>

lemma unat_byte_of_int: "unat (word_of_int k :: byte) = nat (k mod 256)"
  by (simp add: unsigned_of_int take_bit_eq_mod nat_take_bit_eq)

lemma be32_nat:
  fixes m :: nat
  shows "((m div 16777216 mod 256 * 256 + m div 65536 mod 256) * 256 + m div 256 mod 256) * 256
           + m mod 256 = m mod 4294967296"
proof -
  define a where "a = m div 256"
  define b where "b = a div 256"
  define c where "c = b div 256"
  have d8: "m div 256 = a" by (simp add: a_def)
  have d16: "m div 65536 = b"
    using div_mult2_eq [of m 256 256] by (simp add: a_def b_def)
  have d24: "m div 16777216 = c"
    using div_mult2_eq [of m 65536 256] by (simp add: d16 c_def)
  have "m mod 2 ^ 32 = m mod 256 + 256 * (a mod 2 ^ 24)"
    using mod_mult2_eq [of m 256 "2 ^ 24"] by (simp add: a_def)
  also have "a mod 2 ^ 24 = a mod 256 + 256 * (b mod 2 ^ 16)"
    using mod_mult2_eq [of a 256 "2 ^ 16"] by (simp add: b_def)
  also have "b mod 2 ^ 16 = b mod 256 + 256 * (c mod 256)"
    using mod_mult2_eq [of b 256 "256"] by (simp add: c_def)
  finally show ?thesis by (simp add: d8 d16 d24 algebra_simps)
qed

lemma nat_div_mod_byte:
  assumes "0 \<le> n" "0 < k"
  shows "nat (n div k mod 256) = nat n div nat k mod 256"
proof -
  have "0 \<le> n div k" using assms by (simp add: pos_imp_zdiv_nonneg_iff)
  then have "nat (n div k mod 256) = nat (n div k) mod 256" by (simp add: nat_mod_distrib)
  also have "nat (n div k) = nat n div nat k" using assms by (simp add: nat_div_distrib)
  finally show ?thesis .
qed

lemma struct_pack_I_ok:
  assumes "0 \<le> n" "n < 2 ^ 32"
  shows "\<exists>bs. struct_pack_I n = Inr bs \<and> length bs = 4 \<and> spec_be32 bs = nat n"
proof -
  let ?bs = "[word_of_int (n div 2 ^ 24), word_of_int (n div 2 ^ 16),
              word_of_int (n div 2 ^ 8), word_of_int n] :: byte list"
  have p: "struct_pack_I n = Inr ?bs" using assms by (simp add: struct_pack_I_def)
  have "nat (n mod 256) = nat n mod 256" using assms(1) by (simp add: nat_mod_distrib)
  then have "spec_be32 ?bs = nat n mod 4294967296"
    using be32_nat [of "nat n"]
      nat_div_mod_byte [OF assms(1), of 16777216] nat_div_mod_byte [OF assms(1), of 65536]
      nat_div_mod_byte [OF assms(1), of 256]
    by (simp add: spec_be32_def unat_byte_of_int)
  also have "\<dots> = nat n" using assms by simp
  finally show ?thesis using p by simp
qed

lemma struct_pack_I_error:
  "\<not> (0 \<le> n \<and> n < 2 ^ 32) \<Longrightarrow> struct_pack_I n = Inl StructError"
  by (auto simp: struct_pack_I_def)

lemma crc_mask_range: "0 \<le> (x :: int) AND 0xFFFFFFFF" "(x :: int) AND 0xFFFFFFFF < 2 ^ 32"
proof -
  show "0 \<le> x AND 0xFFFFFFFF" by simp
  have "x AND 0xFFFFFFFF \<le> 0xFFFFFFFF" by (rule AND_upper2) simp
  then show "x AND 0xFFFFFFFF < 2 ^ 32" by simp
qed

lemma chunk_ok:
  assumes "int (length payload) < 2 ^ 32"
  shows "\<exists>l c. chunk crc32 tag payload = Inr (l @ tag @ payload @ c) \<and>
           length l = 4 \<and> spec_be32 l = length payload \<and>
           length c = 4 \<and> int (spec_be32 c) = crc32 (tag @ payload) AND 0xFFFFFFFF"
proof -
  obtain l where l: "struct_pack_I (int (length payload)) = Inr l" "length l = 4"
    "spec_be32 l = nat (int (length payload))"
    using struct_pack_I_ok [of "int (length payload)"] assms by auto
  obtain c where c: "struct_pack_I (crc32 (tag @ payload) AND 0xFFFFFFFF) = Inr c" "length c = 4"
    "spec_be32 c = nat (crc32 (tag @ payload) AND 0xFFFFFFFF)"
    using struct_pack_I_ok [OF crc_mask_range] by blast
  have "chunk crc32 tag payload = Inr (l @ tag @ payload @ c)"
    by (simp add: chunk_def Let_def l(1) c(1))
  moreover have "int (spec_be32 c) = crc32 (tag @ payload) AND 0xFFFFFFFF"
    using c(3) crc_mask_range(1) [of "crc32 (tag @ payload)"] by simp
  ultimately show ?thesis using l(2,3) c(2) by auto
qed

lemma chunk_error:
  "\<not> int (length payload) < 2 ^ 32 \<Longrightarrow> chunk crc32 tag payload = Inl StructError"
  by (simp add: chunk_def Let_def struct_pack_I_error)

lemma read_one_chunk:
  assumes "length l = 4" "length tag = 4" "length c = 4"
    and "spec_be32 l = length payload"
    and "int (spec_be32 c) = crc32 (tag @ payload) AND 0xFFFFFFFF"
  shows "spec_read_chunks crc32 (l @ tag @ payload @ c @ rest) =
           map_option ((#) (tag, payload)) (spec_read_chunks crc32 rest)"
proof -
  have "l \<noteq> []" using assms(1) by auto
  with assms show ?thesis
    by (subst spec_read_chunks.simps) (simp add: Let_def)
qed

lemma read_no_chunk: "spec_read_chunks crc32 [] = Some []"
  by (subst spec_read_chunks.simps) simp

lemma pack_ihdr_ok:
  assumes "0 \<le> width" "width < 2 ^ 32" "0 \<le> height" "height < 2 ^ 32"
  shows "\<exists>hdr. pack_ihdr width height = Inr hdr \<and> length hdr = 13 \<and>
           spec_be32 (take 4 hdr) = nat width \<and>
           spec_be32 (take 4 (drop 4 hdr)) = nat height \<and> drop 8 hdr = [8, 6, 0, 0, 0]"
proof -
  obtain w where w: "struct_pack_I width = Inr w" "length w = 4" "spec_be32 w = nat width"
    using struct_pack_I_ok [OF assms(1,2)] by blast
  obtain h where h: "struct_pack_I height = Inr h" "length h = 4" "spec_be32 h = nat height"
    using struct_pack_I_ok [OF assms(3,4)] by blast
  have "pack_ihdr width height = Inr (w @ h @ [8, 6, 0, 0, 0])"
    by (simp add: pack_ihdr_def w(1) h(1))
  then show ?thesis using w(2,3) h(2,3) by simp
qed

lemma pack_ihdr_error:
  "\<not> (0 \<le> width \<and> width < 2 ^ 32 \<and> 0 \<le> height \<and> height < 2 ^ 32) \<Longrightarrow>
   pack_ihdr width height = Inl StructError"
  by (auto simp: pack_ihdr_def struct_pack_I_def)

lemma length_bytes_of [simp]: "length (bytes_of s) = length s"
  by (simp add: bytes_of_def)

lemma write_png_rgba_ok:
  assumes "int (length rgba) = width * height * 4"
    and "0 \<le> width" "width < 2 ^ 32" "0 \<le> height" "height < 2 ^ 32"
    and "int (length (compress (scanlines_of width height rgba) 9)) < 2 ^ 32"
  shows "\<exists>hdr c1 c2 c3.
           write_png_rgba crc32 compress fs path width height rgba =
             (Inr (), fs(path \<mapsto> ((png_signature @ c1) @ c2) @ c3)) \<and>
           pack_ihdr width height = Inr hdr \<and>
           chunk crc32 (bytes_of ''IHDR'') hdr = Inr c1 \<and>
           chunk crc32 (bytes_of ''IDAT'') (compress (scanlines_of width height rgba) 9) = Inr c2 \<and>
           chunk crc32 (bytes_of ''IEND'') [] = Inr c3"
proof -
  obtain hdr where hdr: "pack_ihdr width height = Inr hdr" "length hdr = 13"
    using pack_ihdr_ok [OF assms(2-5)] by blast
  obtain c1 where c1: "chunk crc32 (bytes_of ''IHDR'') hdr = Inr c1"
    using chunk_ok [of hdr crc32 "bytes_of ''IHDR''"] hdr(2) by auto
  obtain c2 where c2:
    "chunk crc32 (bytes_of ''IDAT'') (compress (scanlines_of width height rgba) 9) = Inr c2"
    using chunk_ok [OF assms(6), of crc32 "bytes_of ''IDAT''"] by auto
  obtain c3 where c3: "chunk crc32 (bytes_of ''IEND'') [] = Inr c3"
    using chunk_ok [of "[]" crc32 "bytes_of ''IEND''"] by auto
  have "write_png_rgba crc32 compress fs path width height rgba =
          (Inr (), fs(path \<mapsto> ((png_signature @ c1) @ c2) @ c3))"
    by (simp add: write_png_rgba_def assms(1) hdr(1) c1 c2 c3 Let_def)
  with hdr(1) c1 c2 c3 show ?thesis by blast
qed

lemma scanlines_2x2:
  "scanlines_of 2 2 (replicate 16 255) = [0, 255, 255, 255, 255, 255, 255, 255, 255,
                                          0, 255, 255, 255, 255, 255, 255, 255, 255]"
  by (simp add: scanlines_of_def py_range_def py_slice_def Let_def upt_rec numeral_eq_Suc)

section \<open>The claims\<close>

text \<open>
  Claim C1. For every encoded input triple and every parameter set, \<open>grade_color\<close> is the
  composition, in this order, of: decoding each channel to linear; (1) the per-channel
  white-balance scaling from warmth and cool; (2) the teal bias weighted by the shadow
  weight \<open>clamp (1 - luma * 1.8) 0 1\<close>; (3) saturation, which recomputes the luma after
  stages 1 and 2 and interpolates each channel toward it; (4) contrast around the pivot
  \<open>0.18\<close>; (5) additive lift, then multiplicative gain; (6) the gamma power on the value
  clamped at zero, only when \<open>\<bar>gamma - 1\<bar> > 10\<^sup>-\<^sup>6\<close>; then clamping, encoding and clamping
  again. An exception of the gamma power is the same on both sides.
\<close>

theorem grade_color_stage_order:
  "grade_color rgb p = spec_grade_color rgb p"
proof -
  have out: "spec_output = encode_rgb" by (rule ext) (rule spec_output_encode)
  show ?thesis
  proof (cases "decode_rgb rgb")
    case (Inl e)
    then show ?thesis by (simp add: grade_color_def spec_grade_color_def)
  next
    case (Inr lin)
    obtain lr lg lb where lin: "lin = (lr, lg, lb)" by (cases lin) auto
    show ?thesis
      unfolding grade_color_def spec_grade_color_def Inr lin out
      by (simp only: Let_def spec_white_balance_def spec_shadow_bias_def spec_shadow_weight_def
          spec_saturation_def spec_interpolate_def spec_contrast_def spec_lift_gain_def
          spec_gamma_def bind_result_Inr prod.case)
  qed
qed

text \<open>
  Claim C2, as amended. For every level of at least 2 and every transform that returns
  for every colour, the cube sampler returns a buffer of \<open>level\<^sup>3 * level\<^sup>3 * 4\<close> bytes and
  raises nothing.
\<close>

theorem hald_lut_length:
  assumes "2 \<le> level" "\<forall>c. \<exists>v. transform c = Inr v"
  shows "\<exists>buf. generate_hald_lut transform level = Inr buf \<and>
           int (length buf) = level ^ 3 * level ^ 3 * 4"
proof -
  define size' where "size' = hald_size level"
  define width where "width = hald_width level"
  define out where "out = replicate (nat (width * width * 4)) (0 :: byte)"
  have lpos: "0 < level" using assms(1) by simp
  have sz4: "4 \<le> size'"
    using mult_mono [of 2 level 2 level] assms(1) by (simp add: size'_def hald_size_def)
  have wpos: "0 < width" using lpos sz4 by (simp add: width_def hald_width_def size'_def [symmetric])
  have total: "size' * size' * size' = width * width"
    by (simp add: width_def hald_width_def size'_def hald_size_def algebra_simps)
  have w3: "width = level ^ 3"
    by (simp add: width_def hald_width_def hald_size_def power3_eq_cube algebra_simps)
  have len: "int (length out) = width * width * 4" using wpos by (simp add: out_def)
  have ba: "bytearray (width * width * 4) = Inr out"
    using wpos by (simp add: bytearray_def out_def)
  have idx: "\<forall>i \<in> set (py_range (size' * size' * size')). 0 \<le> i \<and> (i + 1) * 4 \<le> int (length out)"
    by (auto simp: py_range_def total len)
  have "size' \<noteq> 0" "width \<noteq> 0" "(of_int (size' - 1) :: real) \<noteq> 0"
    using sz4 wpos by simp_all
  then obtain buf where buf:
    "for_each (hald_body transform size' width (of_int (size' - 1)))
       (py_range (size' * size' * size')) out = Inr buf" "length buf = length out"
    using for_each_hald_ok [OF _ _ _ assms(2) idx] by blast
  have "generate_hald_lut transform level = Inr buf"
    unfolding generate_hald_lut_def
    by (simp only: Let_def size'_def [symmetric] width_def [symmetric] ba bind_result_Inr buf)
  then show ?thesis using buf(2) len w3 by simp
qed

text \<open>
  The theorem above at level 2, with the identity transform.
\<close>

theorem hald_lut_length_witness:
  "\<exists>buf. generate_hald_lut Inr 2 = Inr buf \<and> int (length buf) = 2 ^ 3 * 2 ^ 3 * 4"
  using hald_lut_length [of 2 Inr] by simp

text \<open>
  Claim C2 as stated fails at level 1: \<open>size\<close> is 1, so \<open>denom = float(size - 1)\<close> is zero
  and the first source colour divides by it.
\<close>

theorem hald_lut_level1_raises:
  "generate_hald_lut Inr 1 = Inl ZeroDivisionError"
  by (simp add: generate_hald_lut_def hald_size_def hald_width_def bytearray_def py_range_def
      hald_body_def cube_coords_def float_div_def Let_def)

text \<open>
  Claim C3, as amended. For every RGBA buffer whose length equals \<open>width * height * 4\<close>,
  with width and height in \<open>[0, 2\<^sup>3\<^sup>2)\<close> and compressed data shorter than \<open>2\<^sup>3\<^sup>2\<close> bytes,
  the file written is the eight-byte signature followed by exactly three chunks, IHDR,
  IDAT and IEND in that order, each with its declared length equal to its payload length
  and a CRC-32 that verifies over tag and payload; the IDAT payload is the compressed
  scanlines, the IEND payload is empty, and the IHDR payload is width and height as
  four-byte big-endian numbers followed by the bytes 8, 6, 0, 0, 0.
\<close>

theorem png_stream_structure:
  assumes "int (length rgba) = width * height * 4"
    and "0 \<le> width" "width < 2 ^ 32" "0 \<le> height" "height < 2 ^ 32"
    and "int (length (compress (scanlines_of width height rgba) 9)) < 2 ^ 32"
  shows "\<exists>png hdr.
           write_png_rgba crc32 compress fs path width height rgba =
             (Inr (), fs(path \<mapsto> png)) \<and>
           take 8 png = png_signature \<and>
           spec_read_chunks crc32 (drop 8 png) =
             Some [(bytes_of ''IHDR'', hdr),
                   (bytes_of ''IDAT'', compress (scanlines_of width height rgba) 9),
                   (bytes_of ''IEND'', [])] \<and>
           length hdr = 13 \<and>
           spec_be32 (take 4 hdr) = nat width \<and>
           spec_be32 (take 4 (drop 4 hdr)) = nat height \<and>
           drop 8 hdr = [8, 6, 0, 0, 0]"
proof -
  let ?idat = "compress (scanlines_of width height rgba) 9"
  obtain hdr c1 c2 c3 where w:
    "write_png_rgba crc32 compress fs path width height rgba =
       (Inr (), fs(path \<mapsto> ((png_signature @ c1) @ c2) @ c3))"
    and ph: "pack_ihdr width height = Inr hdr"
    and k1: "chunk crc32 (bytes_of ''IHDR'') hdr = Inr c1"
    and k2: "chunk crc32 (bytes_of ''IDAT'') ?idat = Inr c2"
    and k3: "chunk crc32 (bytes_of ''IEND'') [] = Inr c3"
    using write_png_rgba_ok [of rgba width height compress crc32 fs path] assms by blast
  have hdr: "length hdr = 13" "spec_be32 (take 4 hdr) = nat width"
    "spec_be32 (take 4 (drop 4 hdr)) = nat height" "drop 8 hdr = [8, 6, 0, 0, 0]"
    using pack_ihdr_ok [OF assms(2-5)] ph by auto
  obtain l1 e1 where s1: "c1 = l1 @ bytes_of ''IHDR'' @ hdr @ e1" "length l1 = 4"
    "spec_be32 l1 = length hdr" "length e1 = 4"
    "int (spec_be32 e1) = crc32 (bytes_of ''IHDR'' @ hdr) AND 0xFFFFFFFF"
    using chunk_ok [of hdr crc32 "bytes_of ''IHDR''"] hdr(1) k1 by auto
  obtain l2 e2 where s2: "c2 = l2 @ bytes_of ''IDAT'' @ ?idat @ e2" "length l2 = 4"
    "spec_be32 l2 = length ?idat" "length e2 = 4"
    "int (spec_be32 e2) = crc32 (bytes_of ''IDAT'' @ ?idat) AND 0xFFFFFFFF"
    using chunk_ok [OF assms(6), of crc32 "bytes_of ''IDAT''"] k2 by auto
  obtain l3 e3 where s3: "c3 = l3 @ bytes_of ''IEND'' @ [] @ e3" "length l3 = 4"
    "spec_be32 l3 = length ([] :: byte list)" "length e3 = 4"
    "int (spec_be32 e3) = crc32 (bytes_of ''IEND'' @ []) AND 0xFFFFFFFF"
    using chunk_ok [of "[]" crc32 "bytes_of ''IEND''"] k3 by auto
  have r3: "spec_read_chunks crc32 c3 = Some [(bytes_of ''IEND'', [])]"
    using read_one_chunk [of l3 "bytes_of ''IEND''" e3 "[]" crc32 "[]"] s3(2-5)
    by (simp add: s3(1) read_no_chunk)
  have r2: "spec_read_chunks crc32 (c2 @ c3) =
      Some [(bytes_of ''IDAT'', ?idat), (bytes_of ''IEND'', [])]"
    using read_one_chunk [of l2 "bytes_of ''IDAT''" e2 ?idat crc32 c3] s2(2-5)
    by (simp add: s2(1) r3)
  have r1: "spec_read_chunks crc32 (c1 @ c2 @ c3) =
      Some [(bytes_of ''IHDR'', hdr), (bytes_of ''IDAT'', ?idat), (bytes_of ''IEND'', [])]"
    using read_one_chunk [of l1 "bytes_of ''IHDR''" e1 hdr crc32 "c2 @ c3"] s1(2-5)
    by (simp add: s1(1) r2)
  have sg: "length png_signature = 8" by (simp add: png_signature_def)
  have "take 8 (((png_signature @ c1) @ c2) @ c3) = png_signature"
    "drop 8 (((png_signature @ c1) @ c2) @ c3) = c1 @ c2 @ c3"
    using sg by simp_all
  with w r1 hdr show ?thesis by metis
qed

text \<open>
  The theorem above for a 2 by 2 buffer of white pixels, with a checksum that is
  constantly zero and a compressor that stores its input.
\<close>

theorem png_stream_structure_witness:
  "\<exists>png hdr.
     write_png_rgba (\<lambda>bs. 0) (\<lambda>d l. d) Map.empty ''a.png'' 2 2 (replicate 16 255) =
       (Inr (), [''a.png'' \<mapsto> png]) \<and>
     take 8 png = png_signature \<and>
     spec_read_chunks (\<lambda>bs. 0) (drop 8 png) =
       Some [(bytes_of ''IHDR'', hdr),
             (bytes_of ''IDAT'', scanlines_of 2 2 (replicate 16 255)),
             (bytes_of ''IEND'', [])] \<and>
     length hdr = 13 \<and> spec_be32 (take 4 hdr) = 2 \<and>
     spec_be32 (take 4 (drop 4 hdr)) = 2 \<and> drop 8 hdr = [8, 6, 0, 0, 0]"
proof -
  have "int (length (scanlines_of 2 2 (replicate 16 (255 :: byte)))) < 2 ^ 32"
    by (simp add: scanlines_2x2)
  then show ?thesis
    using png_stream_structure [of "replicate 16 255" 2 2 "\<lambda>d l. d" "\<lambda>bs. 0" Map.empty "''a.png''"]
    by simp
qed

text \<open>
  Claim C3 as stated fails for a width of \<open>2\<^sup>3\<^sup>2\<close> and a height of 0: the empty buffer has
  the right length, but the width does not fit the four-byte field of the header, so
  \<^verbatim>\<open>struct.pack\<close> raises and nothing is written.
\<close>

theorem png_no_stream_for_wide_empty_image:
  "int (length ([] :: byte list)) = 2 ^ 32 * 0 * 4 \<and>
   write_png_rgba (\<lambda>bs. 0) (\<lambda>d l. d) Map.empty ''a.png'' (2 ^ 32) 0 [] =
     (Inl StructError, Map.empty)"
  by (simp add: write_png_rgba_def pack_ihdr_def struct_pack_I_def Let_def)




text \<open>
  A gamma that is not negative is not enough for \<open>grade_color\<close>: with a gain of \<open>10\<^sup>2\<^sup>0\<^sup>0\<close>
  and gamma 2, white reaches \<^verbatim>\<open>pow(1e200, 2.0)\<close>, beyond the largest float.
\<close>

lemma grade_color_overflow:
  "grade_color (1, 1, 1) (default_params\<lparr>gain := 10 ^ 200, gamma := 2\<rparr>) = Inl OverflowError"
proof -
  have pg: "pre_gamma (default_params\<lparr>gain := 10 ^ 200, gamma := 2\<rparr>) (1, 1, 1) =
      (10 ^ 200, 10 ^ 200, 10 ^ 200)"
    by (simp add: pre_gamma_def default_params_def clamp_def Let_def)
  have "(10 ^ 200 :: real) powr 2 = (10 ^ 200) ^ 2" by (simp add: powr_numeral)
  moreover have "float_max < ((10 ^ 200) ^ 2 :: real)" by (simp add: float_max_def)
  ultimately have "py_pow (10 ^ 200) 2 = Inl OverflowError" by (simp add: py_pow_def)
  then show ?thesis
    by (subst grade_color_pre_gamma [OF decode_rgb_white pg]) simp
qed

text \<open>
  Claim C5. For every input triple with components in \<open>[0, 1]\<close>, \<open>grade_color\<close> with the
  neutral parameters returns a triple within \<open>10\<^sup>-\<^sup>3\<close> of the input in every component.
\<close>

theorem identity_grade_within_tolerance:
  fixes r g b :: real
  assumes "0 \<le> r" "r \<le> 1" "0 \<le> g" "g \<le> 1" "0 \<le> b" "b \<le> 1"
  shows "\<exists>r' g' b'. grade_color (r, g, b) default_params = Inr (r', g', b') \<and>
           \<bar>r' - r\<bar> \<le> 1 / 10 ^ 3 \<and> \<bar>g' - g\<bar> \<le> 1 / 10 ^ 3 \<and> \<bar>b' - b\<bar> \<le> 1 / 10 ^ 3"
proof -
  obtain lr er where r: "srgb_to_linear r = Inr lr" "linear_to_srgb (clamp lr 0 1) = Inr er"
    "\<bar>clamp er 0 1 - r\<bar> \<le> 1 / 10 ^ 3"
    using encode_decoded_channel [OF assms(1,2)] by blast
  obtain lg eg where g: "srgb_to_linear g = Inr lg" "linear_to_srgb (clamp lg 0 1) = Inr eg"
    "\<bar>clamp eg 0 1 - g\<bar> \<le> 1 / 10 ^ 3"
    using encode_decoded_channel [OF assms(3,4)] by blast
  obtain lb eb where b: "srgb_to_linear b = Inr lb" "linear_to_srgb (clamp lb 0 1) = Inr eb"
    "\<bar>clamp eb 0 1 - b\<bar> \<le> 1 / 10 ^ 3"
    using encode_decoded_channel [OF assms(5,6)] by blast
  have dec: "decode_rgb (r, g, b) = Inr (lr, lg, lb)"
    by (simp add: decode_rgb_def r(1) g(1) b(1))
  have "grade_color (r, g, b) default_params = encode_rgb (lr, lg, lb)"
    using dec by (rule grade_color_default)
  also have "\<dots> = Inr (clamp er 0 1, clamp eg 0 1, clamp eb 0 1)"
    by (simp add: encode_rgb_def r(2) g(2) b(2))
  finally show ?thesis using r(3) g(3) b(3) by blast
qed

text \<open>
  The theorem above at the triple \<open>(1/2, 0, 1)\<close>.
\<close>

theorem identity_grade_witness:
  "\<exists>r' g' b'. grade_color (1 / 2, 0, 1) default_params = Inr (r', g', b') \<and>
           \<bar>r' - 1 / 2\<bar> \<le> 1 / 10 ^ 3 \<and> \<bar>g' - 0\<bar> \<le> 1 / 10 ^ 3 \<and> \<bar>b' - 1\<bar> \<le> 1 / 10 ^ 3"
  using identity_grade_within_tolerance [of "1 / 2" 0 1] by simp

text \<open>
  Claim C6. For every channel value \<open>c\<close> in \<open>[0, 1]\<close>, encoding the decoded value gives \<open>c\<close>
  within \<open>10\<^sup>-\<^sup>4\<close>. Over the reals this holds at the breakpoint too.
\<close>

theorem srgb_roundtrip_within_tolerance:
  fixes c :: real
  assumes "0 \<le> c" "c \<le> 1"
  shows "\<exists>e. bind_result (srgb_to_linear c) linear_to_srgb = Inr e \<and> \<bar>e - c\<bar> \<le> 1 / 10 ^ 4"
proof -
  obtain l e where "srgb_to_linear c = Inr l" "linear_to_srgb l = Inr e" "\<bar>e - c\<bar> \<le> 1 / 10 ^ 4"
    using roundtrip_bound [OF assms] by blast
  then show ?thesis by simp
qed

text \<open>
  The theorem above at \<open>c = 1/2\<close>.
\<close>

theorem srgb_roundtrip_witness:
  "\<exists>e. bind_result (srgb_to_linear (1 / 2)) linear_to_srgb = Inr e \<and> \<bar>e - 1 / 2\<bar> \<le> 1 / 10 ^ 4"
  using srgb_roundtrip_within_tolerance [of "1 / 2"] by simp

text \<open>
  Claim C7. For level 2 the cube has side 4 and the image has width 8; the map from an
  index to its pixel, \<open>idx \<mapsto> (idx mod 8, idx div 8)\<close>, is a bijection from \<open>{0..63}\<close> onto
  \<open>[0, 8) \<times> [0, 8)\<close>; and index 5 has cube coordinates \<open>(1, 1, 0)\<close>.
\<close>

theorem hald_level2_layout:
  "hald_size 2 = 4 \<and> hald_width 2 = 8 \<and>
   bij_betw (pixel_pos (hald_width 2)) {0..63} ({0..<8} \<times> {0..<8}) \<and>
   cube_coords (hald_size 2) 5 = (1, 1, 0)"
proof -
  have sz: "hald_size 2 = 4" "hald_width 2 = 8" by (simp_all add: hald_size_def hald_width_def)
  have inj: "inj_on (pixel_pos 8) {0..63}"
  proof (rule inj_onI)
    fix i j :: int
    assume "pixel_pos 8 i = pixel_pos 8 j"
    then have "i mod 8 = j mod 8" "i div 8 = j div 8" by (simp_all add: pixel_pos_def)
    then show "i = j" by (metis div_mult_mod_eq)
  qed
  have img: "pixel_pos 8 ` {0..63} = {0..<8} \<times> {0..<8}"
  proof (intro set_eqI iffI)
    fix q :: "int \<times> int"
    assume "q \<in> pixel_pos 8 ` {0..63}"
    then obtain i where "0 \<le> i" "i \<le> 63" "q = pixel_pos 8 i" by auto
    then show "q \<in> {0..<8} \<times> {0..<8}" by (auto simp: pixel_pos_def)
  next
    fix q :: "int \<times> int"
    assume "q \<in> {0..<8} \<times> {0..<8}"
    then obtain x y where q: "q = (x, y)" "0 \<le> x" "x < 8" "0 \<le> y" "y < 8" by auto
    then have "pixel_pos 8 (y * 8 + x) = q" by (simp add: pixel_pos_def)
    moreover have "y * 8 + x \<in> {0..63}" using q by simp
    ultimately show "q \<in> pixel_pos 8 ` {0..63}" by blast
  qed
  have "cube_coords 4 5 = (1, 1, 0)" by (simp add: cube_coords_def)
  with sz inj img show ?thesis by (simp add: bij_betw_def)
qed

text \<open>
  Claim C8, as amended. The encoder raises the size-mismatch error exactly when the
  buffer length differs from \<open>width * height * 4\<close>. Its one other error is the packing
  error of \<^verbatim>\<open>struct.pack\<close>, raised exactly when the sizes match and the width, the height
  or the length of the compressed data is outside \<open>[0, 2\<^sup>3\<^sup>2)\<close>. On either error the file
  system is left as it was.
\<close>

theorem png_encoder_errors:
  "(fst (write_png_rgba crc32 compress fs path width height rgba) = Inl ValueError \<longleftrightarrow>
      int (length rgba) \<noteq> width * height * 4) \<and>
   (fst (write_png_rgba crc32 compress fs path width height rgba) = Inl StructError \<longleftrightarrow>
      int (length rgba) = width * height * 4 \<and>
      \<not> (0 \<le> width \<and> width < 2 ^ 32 \<and> 0 \<le> height \<and> height < 2 ^ 32 \<and>
         int (length (compress (scanlines_of width height rgba) 9)) < 2 ^ 32)) \<and>
   (\<forall>e. fst (write_png_rgba crc32 compress fs path width height rgba) = Inl e \<longrightarrow>
      (e = ValueError \<or> e = StructError) \<and>
      snd (write_png_rgba crc32 compress fs path width height rgba) = fs)"
proof -
  let ?res = "write_png_rgba crc32 compress fs path width height rgba"
  let ?idat = "compress (scanlines_of width height rgba) 9"
  consider
    (mismatch) "int (length rgba) \<noteq> width * height * 4"
    | (ok) "int (length rgba) = width * height * 4"
        "0 \<le> width \<and> width < 2 ^ 32 \<and> 0 \<le> height \<and> height < 2 ^ 32"
        "int (length ?idat) < 2 ^ 32"
    | (dims) "int (length rgba) = width * height * 4"
        "\<not> (0 \<le> width \<and> width < 2 ^ 32 \<and> 0 \<le> height \<and> height < 2 ^ 32)"
    | (idat) "int (length rgba) = width * height * 4"
        "0 \<le> width \<and> width < 2 ^ 32 \<and> 0 \<le> height \<and> height < 2 ^ 32"
        "\<not> int (length ?idat) < 2 ^ 32"
    by blast
  then show ?thesis
  proof cases
    case mismatch
    then have "?res = (Inl ValueError, fs)" by (simp add: write_png_rgba_def)
    with mismatch show ?thesis by simp
  next
    case ok
    then obtain png where "?res = (Inr (), fs(path \<mapsto> png))"
      using write_png_rgba_ok [of rgba width height compress crc32 fs path] by blast
    with ok show ?thesis by simp
  next
    case dims
    have "pack_ihdr width height = Inl StructError" using dims(2) by (rule pack_ihdr_error)
    then have "?res = (Inl StructError, fs)"
      using dims(1) by (simp add: write_png_rgba_def)
    with dims show ?thesis by auto
  next
    case idat
    obtain hdr where hdr: "pack_ihdr width height = Inr hdr" "length hdr = 13"
      using pack_ihdr_ok [of width height] idat(2) by blast
    obtain c1 where c1: "chunk crc32 (bytes_of ''IHDR'') hdr = Inr c1"
      using chunk_ok [of hdr crc32 "bytes_of ''IHDR''"] hdr(2) by auto
    have "chunk crc32 (bytes_of ''IDAT'') ?idat = Inl StructError"
      using idat(3) by (rule chunk_error)
    then have "?res = (Inl StructError, fs)"
      using idat(1) by (simp add: write_png_rgba_def hdr(1) c1 Let_def)
    with idat show ?thesis by auto
  qed
qed

text \<open>
  The theorem above for an empty buffer declared as 1 by 1: the size-mismatch error, and
  no file.
\<close>

theorem png_encoder_errors_witness:
  "fst (write_png_rgba (\<lambda>bs. 0) (\<lambda>d l. d) Map.empty ''a.png'' 1 1 []) = Inl ValueError \<and>
   snd (write_png_rgba (\<lambda>bs. 0) (\<lambda>d l. d) Map.empty ''a.png'' 1 1 []) = Map.empty"
  using png_encoder_errors [of "\<lambda>bs. 0" "\<lambda>d l. d" Map.empty "''a.png''" 1 1 "[]"]
  by simp

text \<open>
  Claim C8 as stated fails for a width and height of \<open>-1\<close> with a four-byte buffer: the
  sizes match, and \<^verbatim>\<open>struct.pack\<close> raises on the negative width.
\<close>

theorem png_encoder_struct_error:
  "int (length [0, 0, 0, 0 :: byte]) = (- 1) * (- 1) * 4 \<and>
   write_png_rgba (\<lambda>bs. 0) (\<lambda>d l. d) Map.empty ''a.png'' (- 1) (- 1) [0, 0, 0, 0] =
     (Inl StructError, Map.empty)"
  by (simp add: write_png_rgba_def pack_ihdr_def struct_pack_I_def Let_def)

text \<open>
  Claim C9, as amended. With \<open>warm_tone = 0\<close> and a gamma that is not negative, whatever
  the input, weights and contrast, \<open>grade_bw\<close> returns a triple whose three components
  are equal.
\<close>

theorem bw_neutral_equal_channels:
  assumes "0 \<le> g'"
  shows "\<exists>v. grade_bw rgb weights c' g' 0 = Inr (v, v, v)"
proof -
  obtain r0 g0 b0 where rgb: "rgb = (r0, g0, b0)" by (cases rgb) auto
  obtain lin where dec: "decode_rgb rgb = Inr lin"
    using decode_rgb_total [of r0 g0 b0] rgb by blast
  obtain x where "py_pow (bw_gamma_base lin weights c') g' = Inr x"
    using py_pow_unit_total [OF bw_gamma_base_range assms] by blast
  then have "grade_bw rgb weights c' g' 0 = bw_tone 0 x" by (simp add: grade_bw_def dec)
  with bw_tone_neutral [of x] show ?thesis by simp
qed

text \<open>
  The theorem above at white, with the weights, contrast and gamma of the Tri-X preset.
\<close>

theorem bw_neutral_witness:
  "\<exists>v. grade_bw (1, 1, 1) (0.32, 0.56, 0.12) 1.2 1.02 0 = Inr (v, v, v)"
  using bw_neutral_equal_channels [of "1.02" "(1, 1, 1)" "(0.32, 0.56, 0.12)" "1.2"] by simp

text \<open>
  Claim C9 as stated fails: with the weights and contrast of the HP5 preset and a gamma
  of \<open>-1/2\<close>, black has luma 0 after the contrast stage and \<^verbatim>\<open>pow(0.0, -0.5)\<close> raises
  \<^verbatim>\<open>ZeroDivisionError\<close>, so no triple is returned.
\<close>

theorem bw_neutral_raises_on_negative_gamma:
  "grade_bw (0, 0, 0) (0.28, 0.62, 0.10) 1.08 (- 1 / 2) 0 = Inl ZeroDivisionError \<and>
   \<not> (\<exists>v. grade_bw (0, 0, 0) (0.28, 0.62, 0.10) 1.08 (- 1 / 2) 0 = Inr (v, v, v))"
proof -
  have "grade_bw (0, 0, 0) (0.28, 0.62, 0.10) 1.08 (- 1 / 2) 0 = Inl ZeroDivisionError"
    by (simp add: grade_bw_def decode_rgb_black clamp_def py_pow_def bw_gamma_base_def
        weighted_sum_def Let_def)
  then show ?thesis by simp
qed

text \<open>
  Claim C10. In \<open>grade_bw\<close>, for every input, weights, contrast and gamma, the value
  handed to the gamma power is the weighted sum of the decoded channels, clamped to
  \<open>[0, 1]\<close>, put through the contrast stage and clamped to \<open>[0, 1]\<close> again: the outcome of
  \<open>grade_bw\<close> is the toning of that power, or the exception the power raises, and its
  base lies in \<open>[0, 1]\<close>. Two inputs whose weighted sums both reach 1, or both stay at or
  below 0, therefore have the same outcome under the same parameters.
\<close>

theorem bw_luma_clamped_saturates:
  assumes "decode_rgb rgb1 = Inr (r1, g1, b1)" "decode_rgb rgb2 = Inr (r2, g2, b2)"
  shows
    "let s1 = r1 * w0 + g1 * w1 + b1 * w2;
         s2 = r2 * w0 + g2 * w1 + b2 * w2;
         base = clamp ((clamp s1 0 1 - 0.18) * c' + 0.18) 0 1
     in 0 \<le> base \<and> base \<le> 1 \<and>
        grade_bw rgb1 (w0, w1, w2) c' g' t = bind_result (py_pow base g') (bw_tone t) \<and>
        ((1 \<le> s1 \<and> 1 \<le> s2) \<or> (s1 \<le> 0 \<and> s2 \<le> 0) \<longrightarrow>
           grade_bw rgb1 (w0, w1, w2) c' g' t = grade_bw rgb2 (w0, w1, w2) c' g' t)"
proof -
  define s1 where "s1 = r1 * w0 + g1 * w1 + b1 * w2"
  define s2 where "s2 = r2 * w0 + g2 * w1 + b2 * w2"
  define base where "base = clamp ((clamp s1 0 1 - 0.18) * c' + 0.18) 0 1"
  have e1: "grade_bw rgb1 (w0, w1, w2) c' g' t = bind_result (py_pow base g') (bw_tone t)"
    by (simp only: grade_bw_def assms(1) bind_result_Inr bw_gamma_base_eq base_def s1_def)
  have e2: "grade_bw rgb2 (w0, w1, w2) c' g' t =
      bind_result (py_pow (clamp ((clamp s2 0 1 - 0.18) * c' + 0.18) 0 1) g') (bw_tone t)"
    by (simp only: grade_bw_def assms(2) bind_result_Inr bw_gamma_base_eq s2_def)
  have rng: "0 \<le> base" "base \<le> 1" unfolding base_def by (rule clamp_bounds)+
  have sat: "grade_bw rgb1 (w0, w1, w2) c' g' t = grade_bw rgb2 (w0, w1, w2) c' g' t"
    if "(1 \<le> s1 \<and> 1 \<le> s2) \<or> (s1 \<le> 0 \<and> s2 \<le> 0)"
  proof -
    have "clamp s1 0 1 = clamp s2 0 1" using that by (auto simp: clamp_def)
    then show ?thesis by (simp only: e1 e2 base_def)
  qed
  show ?thesis
    unfolding Let_def s1_def [symmetric] s2_def [symmetric] base_def [symmetric]
    using rng e1 sat by blast
qed

text \<open>
  The theorem above at white and yellow, with weights \<open>(1/2, 1/2, 1/2)\<close>: both weighted
  sums are at least 1, and the base of the power is 1.
\<close>

theorem bw_luma_clamped_witness:
  "grade_bw (1, 1, 1) (1 / 2, 1 / 2, 1 / 2) (6 / 5) (51 / 50) (3 / 50) =
     bind_result (py_pow 1 (51 / 50)) (bw_tone (3 / 50)) \<and>
   grade_bw (1, 1, 1) (1 / 2, 1 / 2, 1 / 2) (6 / 5) (51 / 50) (3 / 50) =
   grade_bw (1, 1, 0) (1 / 2, 1 / 2, 1 / 2) (6 / 5) (51 / 50) (3 / 50)"
proof -
  have d2: "decode_rgb (1, 1, 0) = Inr (1, 1, 0)"
    by (simp add: decode_rgb_def srgb_to_linear_1 srgb_to_linear_0)
  have "clamp ((clamp (1 * (1 / 2) + 1 * (1 / 2) + 1 * (1 / 2)) 0 1 - 0.18) * (6 / 5) + 0.18) 0 1
      = 1"
    by (simp add: clamp_def)
  moreover have "(1 :: real) \<le> 1 * (1 / 2) + 1 * (1 / 2) + 1 * (1 / 2) \<and>
      (1 :: real) \<le> 1 * (1 / 2) + 1 * (1 / 2) + 0 * (1 / 2)"
    by simp
  ultimately show ?thesis
    using bw_luma_clamped_saturates [OF decode_rgb_white d2,
        of "1 / 2" "1 / 2" "1 / 2" "6 / 5" "51 / 50" "3 / 50", unfolded Let_def]
    by metis
qed

end
